theory Spec2Isabelle
  imports Complex_Main "HOL-Library.AList"
begin

section \<open>Maze clauses (maze\_clause.py)\<close>

text \<open>
  A maze proposition is a pair of a symbol and a grid location; a clause maps propositions
  to their polarity. The Python class keeps the mapping in a \<open>dict\<close>, which iterates in
  insertion order, so the dictionary is an association list with distinct keys:
  \<open>d[k] = v\<close> is \<open>AList.update k v d\<close> (in place for a key that is present, appended
  otherwise) and \<open>del d[k]\<close> is \<open>AList.delete k d\<close>.
\<close>

type_synonym location = "int \<times> int"
type_synonym maze_prop = "string \<times> location"
type_synonym signed_prop = "maze_prop \<times> bool"

record MazeClause =
  props :: "signed_prop list"
  valid :: bool

text \<open>
  \<open>MazeClause.__init__\<close>: one round of the loop over the supplied propositions, then the
  loop itself, started from the empty dictionary and \<open>valid = False\<close>.
\<close>

fun init_step :: "MazeClause \<Rightarrow> signed_prop \<Rightarrow> MazeClause" where
  "init_step c (p, v) =
     (case map_of (props c) p of
        None \<Rightarrow> c\<lparr>props := AList.update p v (props c)\<rparr>
      | Some w \<Rightarrow>
          if w \<noteq> v then c\<lparr>props := AList.delete p (props c), valid := True\<rparr>
          else c)"

definition MazeClause_init :: "signed_prop list \<Rightarrow> MazeClause" where
  "MazeClause_init ps = foldl init_step \<lparr>props = [], valid = False\<rparr> ps"

definition get_prop :: "MazeClause \<Rightarrow> maze_prop \<Rightarrow> bool option" where
  "get_prop c p = map_of (props c) p"

definition is_valid :: "MazeClause \<Rightarrow> bool" where
  "is_valid c = valid c"

definition is_empty :: "MazeClause \<Rightarrow> bool" where
  "is_empty c = ((\<not> valid c) \<and> length (props c) = 0)"

definition len :: "MazeClause \<Rightarrow> nat" where
  "len c = length (props c)"

text \<open>
  \<open>__eq__\<close> compares \<open>frozenset(self.props)\<close>, the set of the dictionary's keys, and the
  \<open>valid\<close> flags. \<open>__hash__\<close> hashes the pair of \<open>frozenset(self.props.items())\<close> and
  \<open>valid\<close>; the builtin \<open>hash\<close> is taken to be free of collisions, so the hash code of a
  clause is represented by the value that is hashed.
\<close>

definition MazeClause_eq :: "MazeClause \<Rightarrow> MazeClause \<Rightarrow> bool" where
  "MazeClause_eq a b =
     (set (map fst (props a)) = set (map fst (props b)) \<and> valid a = valid b)"

definition MazeClause_hash :: "MazeClause \<Rightarrow> signed_prop set \<times> bool" where
  "MazeClause_hash c = (set (props c), valid c)"

text \<open>
  \<open>MazeClause.resolve\<close>. The first loop collects the keys of \<open>c1\<close> on which the two
  clauses disagree and returns early (\<open>None\<close>) at the second one.
\<close>

fun find_disagreed :: "signed_prop list \<Rightarrow> signed_prop list \<Rightarrow> maze_prop list \<Rightarrow> maze_prop list option" where
  "find_disagreed [] d2 acc = Some acc"
| "find_disagreed ((k, v) # rest) d2 acc =
     (case map_of d2 k of
        None \<Rightarrow> find_disagreed rest d2 acc
      | Some w \<Rightarrow>
          if v = w then find_disagreed rest d2 acc
          else if length (acc @ [k]) > 1 then None
          else find_disagreed rest d2 (acc @ [k]))"

definition dict_update :: "signed_prop list \<Rightarrow> signed_prop list \<Rightarrow> signed_prop list" where
  "dict_update d1 d2 = foldl (\<lambda>d (k, v). AList.update k v d) d1 d2"

definition resolve :: "MazeClause \<Rightarrow> MazeClause \<Rightarrow> MazeClause list" where
  "resolve c1 c2 =
     (case find_disagreed (props c1) (props c2) [] of
        None \<Rightarrow> []
      | Some ds \<Rightarrow>
          (case ds of
             [d] \<Rightarrow> [MazeClause_init (AList.delete d (dict_update (props c1) (props c2)))]
           | _ \<Rightarrow> []))"

text \<open>
  \<open>MazeClause.invert\<close>. The loop negates the value stored under every key of the
  dictionary; \<open>invert_clause\<close> is the clause the method returns.
\<close>

definition invert_props :: "signed_prop list \<Rightarrow> signed_prop list" where
  "invert_props d =
     foldl (\<lambda>d' k. case map_of d' k of None \<Rightarrow> d' | Some v \<Rightarrow> AList.update k (\<not> v) d')
       d (map fst d)"

definition invert_clause :: "MazeClause \<Rightarrow> MazeClause" where
  "invert_clause c = c\<lparr>props := invert_props (props c)\<rparr>"

text \<open>
  Clauses are objects: \<open>inverse_query = self\<close> binds a second name to the receiver, it
  does not copy it. The store maps references to the clauses they hold; \<open>invert\<close> writes
  the negated dictionary into the receiver's cell and returns the receiver's reference.
\<close>

type_synonym ref = nat
type_synonym store = "ref \<Rightarrow> MazeClause option"

definition invert :: "ref \<Rightarrow> store \<Rightarrow> ref \<times> store" where
  "invert self h =
     (case h self of
        None \<Rightarrow> (self, h)
      | Some c \<Rightarrow> (let inverse_query = self in (inverse_query, h(inverse_query \<mapsto> invert_clause c))))"

section \<open>Knowledge base (maze\_knowledge\_base.py)\<close>

text \<open>
  A Python \<open>set\<close> of clauses is a list without repetitions, in the order in which the set
  is iterated. A set looks an element up by its hash code and then by \<open>__eq__\<close>, so two
  clauses are the same element when both agree (\<open>same_elem\<close>).
\<close>

definition same_elem :: "MazeClause \<Rightarrow> MazeClause \<Rightarrow> bool" where
  "same_elem a b = (MazeClause_hash a = MazeClause_hash b \<and> MazeClause_eq a b)"

definition set_contains :: "MazeClause list \<Rightarrow> MazeClause \<Rightarrow> bool" where
  "set_contains xs x = list_ex (same_elem x) xs"

definition set_add :: "MazeClause list \<Rightarrow> MazeClause \<Rightarrow> MazeClause list" where
  "set_add xs x = (if set_contains xs x then xs else xs @ [x])"

definition set_update :: "MazeClause list \<Rightarrow> MazeClause list \<Rightarrow> MazeClause list" where
  "set_update xs ys = foldl set_add xs ys"

definition set_difference :: "MazeClause list \<Rightarrow> MazeClause list \<Rightarrow> MazeClause list" where
  "set_difference xs ys = filter (\<lambda>x. \<not> set_contains ys x) xs"

definition issubset :: "MazeClause list \<Rightarrow> MazeClause list \<Rightarrow> bool" where
  "issubset xs ys = list_all (set_contains ys) xs"

type_synonym kb = "MazeClause list"

definition tell :: "kb \<Rightarrow> MazeClause \<Rightarrow> kb" where
  "tell clauses clause = set_add clauses clause"

text \<open>
  \<open>filter_clauses\<close>. One scan of the \<open>for\<close> loop over the potential clauses carries the
  necessary clauses, the helpful propositions, the clauses to remove and the
  \<open>newly_added\<close> flag; the \<open>while\<close> loop repeats the scan until nothing was added.
\<close>

fun filter_scan ::
  "MazeClause list \<Rightarrow> MazeClause list \<times> maze_prop set \<times> MazeClause list \<times> bool
     \<Rightarrow> MazeClause list \<times> maze_prop set \<times> MazeClause list \<times> bool" where
  "filter_scan [] st = st"
| "filter_scan (clause # rest) (necessary, helpful, to_remove, newly_added) =
     (if list_ex (\<lambda>k. k \<in> helpful) (map fst (props clause))
      then filter_scan rest
             (set_add necessary clause, helpful \<union> set (map fst (props clause)),
              set_add to_remove clause, True)
      else filter_scan rest (necessary, helpful, to_remove, newly_added))"

function filter_loop :: "MazeClause list \<Rightarrow> MazeClause list \<Rightarrow> maze_prop set \<Rightarrow> MazeClause list" where
  "filter_loop potential necessary helpful =
     (case filter_scan potential (necessary, helpful, [], False) of
        (necessary', helpful', to_remove, newly_added) \<Rightarrow>
          if \<not> newly_added then necessary'
          else filter_loop (set_difference potential to_remove) necessary' helpful')"
  by pat_completeness auto

text \<open>
  The loop ends: a scan that sets \<open>newly_added\<close> has marked a potential clause for
  removal, so the potential clauses get fewer.
\<close>

lemma set_add_keeps: "set_contains xs y \<Longrightarrow> set_contains (set_add xs x) y"
  by (auto simp: set_contains_def set_add_def list_ex_iff)

lemma set_add_has: "set_contains (set_add xs x) x"
  by (auto simp: set_contains_def set_add_def list_ex_iff same_elem_def MazeClause_eq_def)

lemma filter_scan_removes:
  "filter_scan cs (n, h, r, a) = (n', h', r', a') \<Longrightarrow>
     (\<forall>y. set_contains r y \<longrightarrow> set_contains r' y) \<and>
     (a' \<longrightarrow> a \<or> (\<exists>c \<in> set cs. set_contains r' c))"
proof (induction cs arbitrary: n h r a)
  case Nil
  then show ?case by simp
next
  case (Cons c cs)
  show ?case
  proof (cases "list_ex (\<lambda>k. k \<in> h) (map fst (props c))")
    case True
    with Cons.prems
    have "filter_scan cs (set_add n c, h \<union> set (map fst (props c)), set_add r c, True)
            = (n', h', r', a')"
      by simp
    from Cons.IH[OF this] show ?thesis
      using set_add_has set_add_keeps by (metis list.set_intros(1))
  next
    case False
    with Cons.prems have "filter_scan cs (n, h, r, a) = (n', h', r', a')"
      by simp
    from Cons.IH[OF this] show ?thesis by auto
  qed
qed

termination filter_loop
proof (relation "measure (\<lambda>(potential, necessary, helpful). length potential)")
  show "wf (measure (\<lambda>(potential, necessary, helpful). length potential))"
    by simp
next
  fix potential necessary helpful x1 n' x2 h' x3 r' a'
  assume a: "(n', x2) = filter_scan potential (necessary, helpful, [], False)"
    "(h', x3) = x2" "(r', a') = x3" "\<not> \<not> a'"
  then have "filter_scan potential (necessary, helpful, [], False) = (n', h', r', a')"
    by simp
  from filter_scan_removes[OF this] a(4)
  obtain c where "c \<in> set potential" "set_contains r' c"
    by auto
  then have "length (set_difference potential r') < length potential"
    unfolding set_difference_def
    by (metis (mono_tags, lifting) length_filter_less)
  then show "((set_difference potential r', n', h'), (potential, necessary, helpful))
               \<in> measure (\<lambda>(potential, necessary, helpful). length potential)"
    by simp
qed

declare filter_loop.simps [simp del]

definition filter_clauses :: "kb \<Rightarrow> MazeClause \<Rightarrow> MazeClause list" where
  "filter_clauses clauses query = filter_loop clauses [] (set (map fst (props query)))"

text \<open>
  \<open>ask\<close>. \<open>itertools.combinations(clauses, 2)\<close> yields the pairs of the working set in
  iteration order. One pass of the \<open>for\<close> loop either meets the empty clause among the
  resolvents (\<open>None\<close>: the method returns \<open>True\<close>) or ends with the clauses collected so
  far. The \<open>while True\<close> loop carries a bound on the number of passes; \<open>None\<close> is a run that
  has not returned within the bound. The query is an object of the caller that is no
  element of the stored set, so the in-place negation of \<open>invert\<close> leaves the stored
  clauses as they are, and the working set receives \<open>invert_clause query\<close>.
\<close>

fun combinations2 :: "'a list \<Rightarrow> ('a \<times> 'a) list" where
  "combinations2 [] = []"
| "combinations2 (x # xs) = map (Pair x) xs @ combinations2 xs"

fun ask_pass :: "(MazeClause \<times> MazeClause) list \<Rightarrow> MazeClause list \<Rightarrow> MazeClause list option" where
  "ask_pass [] new_clauses = Some new_clauses"
| "ask_pass ((clause1, clause2) # rest) new_clauses =
     (let resolvants = resolve clause1 clause2 in
      if set_contains resolvants (MazeClause_init []) then None
      else ask_pass rest (set_update new_clauses resolvants))"

fun ask_loop :: "nat \<Rightarrow> MazeClause list \<Rightarrow> MazeClause list \<Rightarrow> bool option" where
  "ask_loop 0 clauses new_clauses = None"
| "ask_loop (Suc n) clauses new_clauses =
     (case ask_pass (combinations2 clauses) new_clauses of
        None \<Rightarrow> Some True
      | Some new_clauses' \<Rightarrow>
          if issubset new_clauses' clauses then Some False
          else ask_loop n (set_update clauses new_clauses') new_clauses')"

definition ask :: "nat \<Rightarrow> kb \<Rightarrow> MazeClause \<Rightarrow> bool option" where
  "ask n clauses query =
     ask_loop n (set_add (filter_clauses clauses query) (invert_clause query)) []"

text \<open>
  \<open>get_simplified_clauses\<close> and \<open>simplify_from_known_locs\<close>. The scan of the clauses
  stops at the first clause that holds the known literal (\<open>break\<close>). Sets of locations
  are lists in iteration order as well; \<open>known_pits | known_safe\<close> is their union.
\<close>

fun simplify_scan ::
  "MazeClause list \<Rightarrow> location \<Rightarrow> bool \<Rightarrow> MazeClause \<Rightarrow> MazeClause list \<Rightarrow> MazeClause list
     \<Rightarrow> MazeClause list \<times> MazeClause list" where
  "simplify_scan [] l is_pit sani_clause to_add to_rem = (to_add, to_rem)"
| "simplify_scan (clause # rest) l is_pit sani_clause to_add to_rem =
     (if len clause = 1 then simplify_scan rest l is_pit sani_clause to_add to_rem
      else if get_prop clause (''P'', l) = Some is_pit then (to_add, set_add to_rem clause)
      else simplify_scan rest l is_pit sani_clause
             (set_update to_add (resolve clause sani_clause)) to_rem)"

definition get_simplified_clauses :: "MazeClause list \<Rightarrow> location \<Rightarrow> bool \<Rightarrow> MazeClause list" where
  "get_simplified_clauses clauses l is_pit =
     (let sani_clause = MazeClause_init [((''P'', l), is_pit)] in
      case simplify_scan clauses l is_pit sani_clause [] [] of
        (to_add, to_rem) \<Rightarrow> set_difference (set_update clauses to_add) to_rem)"

definition locs_union :: "location list \<Rightarrow> location list \<Rightarrow> location list" where
  "locs_union xs ys = xs @ filter (\<lambda>y. y \<notin> set xs) ys"

definition simplify_from_known_locs ::
  "MazeClause list \<Rightarrow> location list \<Rightarrow> location list \<Rightarrow> MazeClause list" where
  "simplify_from_known_locs clauses known_pits known_safe =
     foldl (\<lambda>cs l. get_simplified_clauses cs l (l \<in> set known_pits)) clauses
       (locs_union known_pits known_safe)"

text \<open>
  Truth of a clause under an assignment of the propositions, and entailment. A clause
  flagged \<open>valid\<close> is logically equivalent to \<open>True\<close>.
\<close>

definition clause_true :: "(maze_prop \<Rightarrow> bool) \<Rightarrow> MazeClause \<Rightarrow> bool" where
  "clause_true M c = (valid c \<or> list_ex (\<lambda>(p, v). M p = v) (props c))"

definition consistent :: "kb \<Rightarrow> bool" where
  "consistent clauses = (\<exists>M. list_all (clause_true M) clauses)"

definition entails :: "kb \<Rightarrow> MazeClause \<Rightarrow> bool" where
  "entails clauses query = (\<forall>M. list_all (clause_true M) clauses \<longrightarrow> clause_true M query)"

section \<open>Maze agent (maze\_agent.py)\<close>

text \<open>
  The constants module and the environment class of the maze homework are not among the
  sources. The tile markers are taken as a parameter, a record of the attributes the
  agent reads; the environment is a record of the answers its methods give when the
  agent calls them. A perception is the dictionary with the keys \<open>loc\<close> and \<open>tile\<close>.
\<close>

record Constants =
  PIT_BLOCK :: string
  SAFE_BLOCK :: string
  WRN_ZERO_BLOCK :: string
  WRN_ONE_BLOCK :: string
  WRN_TWO_BLOCK :: string
  WRN_THREE_BLOCK :: string
  WRN_FOUR_BLOCK :: string
  WRN_BLOCKS :: "string list"

record Environment =
  get_goal_loc :: location
  get_player_loc :: location
  get_cardinal_locs :: "location \<Rightarrow> int \<Rightarrow> location list"
  get_frontier_locs :: "location list"

record Perception =
  perceived_loc :: location
  perceived_tile :: string

text \<open>
  The agent's attributes. \<open>asked\<close> is not an attribute of the class: it records, in
  order, the queries for which \<open>ask_with_timeout\<close> has started a process.
\<close>

record MazeAgent =
  goal :: location
  starting_loc :: location
  kb :: "MazeClause list"
  possible_pits :: "location list"
  safe_tiles :: "location list"
  pit_tiles :: "location list"
  asked :: "MazeClause list"

datatype py_error = IndexError

definition loc_add :: "location list \<Rightarrow> location \<Rightarrow> location list" where
  "loc_add xs x = (if x \<in> set xs then xs else xs @ [x])"

definition loc_update :: "location list \<Rightarrow> location list \<Rightarrow> location list" where
  "loc_update xs ys = foldl loc_add xs ys"

text \<open>
  \<open>ask_with_timeout\<close> runs \<open>ask\<close> in a process of its own and gives up after
  \<open>ASK_TIMEOUT\<close> seconds. The time limit is a bound on the passes of the resolution loop
  that the process completes; \<open>budget n\<close> is the bound for the \<open>n\<close>-th process the agent
  starts. The answer is \<open>None\<close> when the process has not returned within the bound.
\<close>

definition ask_with_timeout ::
  "(nat \<Rightarrow> nat) \<Rightarrow> MazeAgent \<Rightarrow> MazeClause \<Rightarrow> bool option \<times> MazeAgent" where
  "ask_with_timeout budget s clause =
     (ask (budget (length (asked s))) (kb s) clause, s\<lparr>asked := asked s @ [clause]\<rparr>)"

definition simplify_self :: "MazeAgent \<Rightarrow> MazeAgent" where
  "simplify_self s = s\<lparr>kb := simplify_from_known_locs (kb s) (pit_tiles s) (safe_tiles s)\<rparr>"

definition is_safe_tile ::
  "Constants \<Rightarrow> (nat \<Rightarrow> nat) \<Rightarrow> MazeAgent \<Rightarrow> location \<Rightarrow> bool option \<times> MazeAgent" where
  "is_safe_tile K budget s loc =
     (if loc \<in> set (safe_tiles s) then (Some True, s)
      else if loc \<in> set (pit_tiles s) then (Some False, s)
      else
        (case ask_with_timeout budget (simplify_self s)
                (MazeClause_init [((PIT_BLOCK K, loc), False)]) of
           (no_pit, s1) \<Rightarrow>
             if no_pit = Some True then
               (Some True,
                s1\<lparr>safe_tiles := loc_add (safe_tiles s1) loc,
                   kb := tell (kb s1) (MazeClause_init [((PIT_BLOCK K, loc), False)])\<rparr>)
             else if no_pit = None then
               (None, s1\<lparr>possible_pits := loc_add (possible_pits s1) loc\<rparr>)
             else
               (case ask_with_timeout budget s1
                       (MazeClause_init [((PIT_BLOCK K, loc), True)]) of
                  (pit, s2) \<Rightarrow>
                    if pit = Some True then
                      (Some False,
                       s2\<lparr>pit_tiles := loc_add (pit_tiles s2) loc,
                          kb := tell (kb s2) (MazeClause_init [((PIT_BLOCK K, loc), True)])\<rparr>)
                    else (None, s2\<lparr>possible_pits := loc_add (possible_pits s2) loc\<rparr>))))"

text \<open>
  \<open>CNF_to_KB\<close> reads \<open>tiles_to_check[0]\<close>, \<open>[1]\<close> and \<open>[2]\<close>; its only caller passes a
  list of three tiles.
\<close>

definition pit_clause :: "Constants \<Rightarrow> (location \<times> bool) list \<Rightarrow> MazeClause" where
  "pit_clause K ls = MazeClause_init (map (\<lambda>(l, v). ((PIT_BLOCK K, l), v)) ls)"

definition CNF_to_KB :: "Constants \<Rightarrow> MazeAgent \<Rightarrow> location list \<Rightarrow> int \<Rightarrow> MazeAgent" where
  "CNF_to_KB K s tiles_to_check n =
     (case tiles_to_check of
        t0 # t1 # t2 # rest \<Rightarrow>
          if n = 2 then
            s\<lparr>kb := foldl tell (kb s)
                 [pit_clause K [(t0, True), (t1, True)],
                  pit_clause K [(t0, True), (t2, True)],
                  pit_clause K [(t1, True), (t2, True)],
                  pit_clause K [(t0, False), (t1, False), (t2, False)]]\<rparr>
          else if n = 1 then
            s\<lparr>kb := foldl tell (kb s)
                 [pit_clause K [(t0, False), (t1, False)],
                  pit_clause K [(t0, False), (t2, False)],
                  pit_clause K [(t1, False), (t2, False)],
                  pit_clause K [(t0, True), (t1, True), (t2, True)]]\<rparr>
          else s
      | _ \<Rightarrow> s)"

definition mark_pit :: "Constants \<Rightarrow> MazeAgent \<Rightarrow> location \<Rightarrow> MazeAgent" where
  "mark_pit K s t =
     s\<lparr>pit_tiles := loc_add (pit_tiles s) t,
       kb := tell (kb s) (MazeClause_init [((PIT_BLOCK K, t), True)])\<rparr>"


text \<open>
  \<open>infer_adjacent_pits\<close>: the first loop removes from the copy every tile that
  \<open>is_safe_tile\<close> finds safe, the second loop removes the first such tile and stops.
\<close>

fun remove_safe ::
  "Constants \<Rightarrow> (nat \<Rightarrow> nat) \<Rightarrow> location list \<Rightarrow> location list \<Rightarrow> MazeAgent
     \<Rightarrow> location list \<times> MazeAgent" where
  "remove_safe K budget [] adjacent_copy s = (adjacent_copy, s)"
| "remove_safe K budget (t # ts) adjacent_copy s =
     (case is_safe_tile K budget s t of
        (r, s') \<Rightarrow>
          if r = Some True then remove_safe K budget ts (removeAll t adjacent_copy) s'
          else remove_safe K budget ts adjacent_copy s')"

fun remove_one_safe ::
  "Constants \<Rightarrow> (nat \<Rightarrow> nat) \<Rightarrow> location list \<Rightarrow> location list \<Rightarrow> MazeAgent
     \<Rightarrow> location list \<times> MazeAgent" where
  "remove_one_safe K budget [] adjacent_tiles s = (adjacent_tiles, s)"
| "remove_one_safe K budget (t # ts) adjacent_tiles s =
     (case is_safe_tile K budget s t of
        (r, s') \<Rightarrow>
          if r = Some True then (removeAll t adjacent_tiles, s')
          else remove_one_safe K budget ts adjacent_tiles s')"

definition infer_adjacent_pits ::
  "Constants \<Rightarrow> (nat \<Rightarrow> nat) \<Rightarrow> MazeAgent \<Rightarrow> location list \<Rightarrow> int \<Rightarrow> MazeAgent" where
  "infer_adjacent_pits K budget s adjacent_tiles num_pits =
     (case remove_safe K budget adjacent_tiles adjacent_tiles s of
        (adjacent_copy, s1) \<Rightarrow>
          if int (length adjacent_copy) = num_pits then foldl (mark_pit K) s1 adjacent_copy
          else
            (case (if length adjacent_tiles > 3
                   then remove_one_safe K budget adjacent_tiles adjacent_tiles s1
                   else (adjacent_tiles, s1)) of
               (adjacent_tiles', s2) \<Rightarrow>
                 if length adjacent_tiles' = 3 then CNF_to_KB K s2 adjacent_tiles' num_pits
                 else s2))"

definition on_warning_tile ::
  "Constants \<Rightarrow> (nat \<Rightarrow> nat) \<Rightarrow> MazeAgent \<Rightarrow> string \<Rightarrow> location list \<Rightarrow> MazeAgent" where
  "on_warning_tile K budget s current_tile adjacent_tiles =
     (if current_tile = WRN_FOUR_BLOCK K then foldl (mark_pit K) s adjacent_tiles
      else if current_tile = WRN_THREE_BLOCK K then
        foldl (\<lambda>s' neighbor. if neighbor \<notin> set (safe_tiles s') then mark_pit K s' neighbor else s')
          s adjacent_tiles
      else if current_tile = WRN_TWO_BLOCK K then infer_adjacent_pits K budget s adjacent_tiles 2
      else if current_tile = WRN_ONE_BLOCK K then infer_adjacent_pits K budget s adjacent_tiles 1
      else s)"

text \<open>
  \<open>find_best_next_move\<close> keeps the candidates as pairs of a priority and a location and
  calls \<open>heapq.heapify\<close> on the list. Python compares the pairs lexicographically. The
  priorities are sums of integers and halves of integers, which floating point represents
  exactly as long as the coordinates stay far below \<open>2^52\<close>, so they are rational numbers
  here. \<open>heapify\<close>, \<open>_siftup\<close> and \<open>_siftdown\<close>
  follow the standard library's \<open>heapq\<close> module.
\<close>

type_synonym item = "rat \<times> location"

definition lt_item :: "item \<Rightarrow> item \<Rightarrow> bool" where
  "lt_item a b =
     (fst a < fst b \<or>
      (fst a = fst b \<and>
       (fst (snd a) < fst (snd b) \<or>
        (fst (snd a) = fst (snd b) \<and> snd (snd a) < snd (snd b)))))"

function siftdown_loop :: "item list \<Rightarrow> nat \<Rightarrow> nat \<Rightarrow> item \<Rightarrow> item list" where
  "siftdown_loop heap startpos pos newitem =
     (if pos > startpos then
        (if lt_item newitem (heap ! ((pos - 1) div 2))
         then siftdown_loop (heap[pos := heap ! ((pos - 1) div 2)]) startpos ((pos - 1) div 2) newitem
         else heap[pos := newitem])
      else heap[pos := newitem])"
  by pat_completeness auto
termination
  by (relation "measure (\<lambda>(heap, startpos, pos, newitem). pos)") auto

declare siftdown_loop.simps [simp del]

definition siftdown :: "item list \<Rightarrow> nat \<Rightarrow> nat \<Rightarrow> item list" where
  "siftdown heap startpos pos = siftdown_loop heap startpos pos (heap ! pos)"

definition smaller_child :: "item list \<Rightarrow> nat \<Rightarrow> nat \<Rightarrow> nat" where
  "smaller_child heap childpos endpos =
     (if childpos + 1 < endpos \<and> \<not> lt_item (heap ! childpos) (heap ! (childpos + 1))
      then childpos + 1 else childpos)"

function siftup_loop :: "item list \<Rightarrow> nat \<Rightarrow> nat \<Rightarrow> item list \<times> nat" where
  "siftup_loop heap pos endpos =
     (if 2 * pos + 1 < endpos then
        siftup_loop (heap[pos := heap ! smaller_child heap (2 * pos + 1) endpos])
          (smaller_child heap (2 * pos + 1) endpos) endpos
      else (heap, pos))"
  by pat_completeness auto
termination
  by (relation "measure (\<lambda>(heap, pos, endpos). endpos - pos)")
     (auto simp: smaller_child_def)

declare siftup_loop.simps [simp del]

definition siftup :: "item list \<Rightarrow> nat \<Rightarrow> item list" where
  "siftup heap pos =
     (case siftup_loop heap pos (length heap) of
        (heap', pos') \<Rightarrow> siftdown (heap'[pos' := heap ! pos]) pos pos')"

definition heapify :: "item list \<Rightarrow> item list" where
  "heapify x = foldl siftup x (rev [0..<length x div 2])"

definition priority :: "MazeAgent \<Rightarrow> location \<Rightarrow> location \<Rightarrow> rat" where
  "priority s current_loc possible_move =
     (let move_distance_from_goal =
            \<bar>fst (goal s) - fst possible_move\<bar> + \<bar>snd (goal s) - snd possible_move\<bar>;
          move_cost =
            \<bar>fst current_loc - fst possible_move\<bar> + \<bar>snd current_loc - snd possible_move\<bar>;
          p0 = of_int move_distance_from_goal + of_int move_cost * (1 / 2);
          p1 = (if possible_move \<in> set (possible_pits s) then p0 + 4 else p0)
      in if possible_move \<in> set (pit_tiles s) then p1 + 20 else p1)"

text \<open>
  The first loop returns the goal as soon as it meets it (\<open>Inl\<close>), otherwise it ends with
  the priority list. The second loop walks the heapified list and returns the first
  move that \<open>is_safe_tile\<close> answers with \<open>True\<close>.
\<close>

fun build_frontier ::
  "MazeAgent \<Rightarrow> location \<Rightarrow> location list \<Rightarrow> item list \<Rightarrow> location + item list" where
  "build_frontier s current_loc [] priority_frontier = Inr priority_frontier"
| "build_frontier s current_loc (possible_move # rest) priority_frontier =
     (if possible_move = goal s then Inl possible_move
      else build_frontier s current_loc rest
             (priority_frontier @ [(priority s current_loc possible_move, possible_move)]))"

fun first_safe ::
  "Constants \<Rightarrow> (nat \<Rightarrow> nat) \<Rightarrow> item list \<Rightarrow> MazeAgent \<Rightarrow> location option \<times> MazeAgent" where
  "first_safe K budget [] s = (None, s)"
| "first_safe K budget (sorted_move # rest) s =
     (case is_safe_tile K budget s (snd sorted_move) of
        (r, s') \<Rightarrow>
          if r = Some True then (Some (snd sorted_move), s')
          else first_safe K budget rest s')"

definition find_best_next_move ::
  "Constants \<Rightarrow> (nat \<Rightarrow> nat) \<Rightarrow> MazeAgent \<Rightarrow> location list \<Rightarrow> location
     \<Rightarrow> (py_error + location) \<times> MazeAgent" where
  "find_best_next_move K budget s possible_moves current_loc =
     (case build_frontier s current_loc possible_moves [] of
        Inl g \<Rightarrow> (Inr g, s)
      | Inr priority_frontier \<Rightarrow>
          (case first_safe K budget (heapify priority_frontier) s of
             (Some m, s') \<Rightarrow> (Inr m, s')
           | (None, s') \<Rightarrow>
               (case heapify priority_frontier of
                  [] \<Rightarrow> (Inl IndexError, s')
                | first # rest \<Rightarrow> (Inr (snd first), s'))))"


definition add_starting_rules ::
  "Constants \<Rightarrow> (nat \<Rightarrow> nat) \<Rightarrow> Environment \<Rightarrow> MazeAgent \<Rightarrow> Perception \<Rightarrow> MazeAgent" where
  "add_starting_rules K budget env s perception =
     (let s1 = s\<lparr>safe_tiles := loc_update (safe_tiles s) [starting_loc s, goal s]\<rparr>;
          paths_to_goal = get_cardinal_locs env (goal s) 1;
          props = map (\<lambda>l. ((PIT_BLOCK K, l), False)) paths_to_goal;
          s2 = s1\<lparr>kb := tell (kb s1) (MazeClause_init props)\<rparr>;
          s3 = (case props of
                  [p] \<Rightarrow> s2\<lparr>safe_tiles := loc_add (safe_tiles s2) (snd (fst p))\<rparr>
                | _ \<Rightarrow> s2);
          s4 = (if perceived_tile perception = SAFE_BLOCK K
                   \<or> perceived_tile perception = WRN_ZERO_BLOCK K
                then s3\<lparr>safe_tiles :=
                        loc_update (safe_tiles s3) (get_cardinal_locs env (starting_loc s) 1)\<rparr>
                else s3)
      in if perceived_tile perception \<in> set (WRN_BLOCKS K)
         then on_warning_tile K budget s4 (perceived_tile perception)
                (get_cardinal_locs env (starting_loc s) 1)
         else s4)"

definition MazeAgent_init ::
  "Constants \<Rightarrow> (nat \<Rightarrow> nat) \<Rightarrow> Environment \<Rightarrow> Perception \<Rightarrow> MazeAgent" where
  "MazeAgent_init K budget env perception =
     add_starting_rules K budget env
       \<lparr>goal = get_goal_loc env, starting_loc = get_player_loc env, kb = [],
        possible_pits = [], safe_tiles = [], pit_tiles = [], asked = []\<rparr>
       perception"





text \<open>
  Sample values of the parameters, for runs on concrete inputs: markers for the tiles, a
  grid without walls as seen at the start at \<open>(1,1)\<close>, an agent with an empty knowledge
  base that knows four safe tiles, a time limit that lets no process finish, and one
  that lets every process run eight passes.
\<close>

definition sample_constants :: Constants where
  "sample_constants =
     \<lparr>PIT_BLOCK = ''P'', SAFE_BLOCK = ''.'', WRN_ZERO_BLOCK = ''0'', WRN_ONE_BLOCK = ''1'',
      WRN_TWO_BLOCK = ''2'', WRN_THREE_BLOCK = ''3'', WRN_FOUR_BLOCK = ''4'',
      WRN_BLOCKS = [''1'', ''2'', ''3'', ''4'']\<rparr>"

definition open_grid :: "location \<Rightarrow> int \<Rightarrow> location list" where
  "open_grid l r =
     [(fst l + r, snd l), (fst l - r, snd l), (fst l, snd l + r), (fst l, snd l - r)]"

definition sample_env_start :: Environment where
  "sample_env_start =
     \<lparr>get_goal_loc = (4, 4), get_player_loc = (1, 1), get_cardinal_locs = open_grid,
      get_frontier_locs = [(2, 1), (0, 1), (1, 2), (1, 0)]\<rparr>"

definition frontier_state :: MazeAgent where
  "frontier_state =
     \<lparr>goal = (5, 0), starting_loc = (0, 0), kb = [], possible_pits = [],
      safe_tiles = [(0, 0), (5, 0), (2, 0), (0, 1)], pit_tiles = [], asked = []\<rparr>"

definition no_time :: "nat \<Rightarrow> nat" where
  "no_time n = 0"

definition ample_time :: "nat \<Rightarrow> nat" where
  "ample_time n = 8"







section \<open>Properties of clauses\<close>

lemma invert_props_single: "invert_props [(k, v)] = [(k, \<not> v)]"
  by (simp add: invert_props_def)

text \<open>
  The clause that \<open>invert\<close> returns holds every proposition of the receiver with the
  opposite polarity, in the same order, and keeps the \<open>valid\<close> flag.
\<close>

lemma update_flips_one:
  "distinct (map fst d) \<Longrightarrow> map_of d k = Some v \<Longrightarrow>
   AList.update k (\<not> v) d = map (\<lambda>(k', v'). (k', if k' = k then \<not> v' else v')) d"
proof (induction d)
  case Nil
  then show ?case by simp
next
  case (Cons a d)
  obtain k0 v0 where a: "a = (k0, v0)" by (cases a)
  show ?case
  proof (cases "k0 = k")
    case True
    with Cons.prems a have "v0 = v" by simp
    moreover have "map (\<lambda>(k', v'). (k', if k' = k then \<not> v' else v')) d = d"
      using Cons.prems True a by (induction d) (auto simp: rev_image_eqI)
    ultimately show ?thesis using True a by simp
  next
    case False
    with Cons a show ?thesis by simp
  qed
qed

lemma invert_fold:
  "distinct (map fst d) \<Longrightarrow> distinct ks \<Longrightarrow> set ks \<subseteq> fst ` set d \<Longrightarrow>
   foldl (\<lambda>d' k. case map_of d' k of None \<Rightarrow> d' | Some v \<Rightarrow> AList.update k (\<not> v) d') d ks
     = map (\<lambda>(k', v'). (k', if k' \<in> set ks then \<not> v' else v')) d"
proof (induction ks arbitrary: d)
  case Nil
  then show ?case by simp
next
  case (Cons k ks)
  have "k \<in> fst ` set d" using Cons.prems(3) by simp
  then have "map_of d k \<noteq> None" by (simp add: map_of_eq_None_iff)
  then obtain v where v: "map_of d k = Some v" by auto
  let ?d = "map (\<lambda>(k', v'). (k', if k' = k then \<not> v' else v')) d"
  have u: "AList.update k (\<not> v) d = ?d"
    by (rule update_flips_one[OF Cons.prems(1) v])
  have keys: "map fst ?d = map fst d" by (induction d) auto
  have d1: "distinct (map fst ?d)" using Cons.prems(1) by (simp only: keys)
  have d2: "distinct ks" using Cons.prems(2) by simp
  have "fst ` set ?d = fst ` set d" using keys by (metis set_map)
  then have d3: "set ks \<subseteq> fst ` set ?d" using Cons.prems(3) by simp
  have "foldl (\<lambda>d' k. case map_of d' k of None \<Rightarrow> d' | Some v \<Rightarrow> AList.update k (\<not> v) d') ?d ks
          = map (\<lambda>(k', v'). (k', if k' \<in> set ks then \<not> v' else v')) ?d"
    by (rule Cons.IH[OF d1 d2 d3])
  also have "\<dots> = map (\<lambda>(k', v'). (k', if k' \<in> set (k # ks) then \<not> v' else v')) d"
    using Cons.prems(2) by (auto simp: comp_def split: prod.splits)
  finally show ?case by (simp add: v u)
qed

lemma invert_clause_flips:
  assumes "distinct (map fst (props c))"
  shows "props (invert_clause c) = map (\<lambda>(k, v). (k, \<not> v)) (props c)"
    and "valid (invert_clause c) = valid c"
proof -
  have "invert_props (props c) = map (\<lambda>(k', v'). (k', if k' \<in> set (map fst (props c)) then \<not> v' else v')) (props c)"
    unfolding invert_props_def by (rule invert_fold[OF assms assms]) simp
  also have "\<dots> = map (\<lambda>(k, v). (k, \<not> v)) (props c)"
    by (auto simp: rev_image_eqI)
  finally show "props (invert_clause c) = map (\<lambda>(k, v). (k, \<not> v)) (props c)"
    by (simp add: invert_clause_def)
  show "valid (invert_clause c) = valid c" by (simp add: invert_clause_def)
qed

text \<open>
  The constructor flags a clause as a tautology whenever some proposition is supplied
  with both polarities: as long as the flag is not set, every proposition supplied so
  far is stored with the polarity it was supplied with.
\<close>

lemma init_step_inv:
  assumes "valid c \<or> (\<forall>q w. (q, w) \<in> S \<longrightarrow> map_of (props c) q = Some w)"
  shows "valid (init_step c (p, v))
         \<or> (\<forall>q w. (q, w) \<in> insert (p, v) S \<longrightarrow> map_of (props (init_step c (p, v))) q = Some w)"
proof (cases "valid c")
  case True
  then show ?thesis by (auto split: option.splits)
next
  case False
  with assms have S: "\<forall>q w. (q, w) \<in> S \<longrightarrow> map_of (props c) q = Some w" by simp
  show ?thesis
  proof (cases "map_of (props c) p")
    case None
    have "map_of (props c) q = Some w \<Longrightarrow> q \<noteq> p" for q w using None by auto
    then show ?thesis using S None by (auto simp: AList.update_conv')
  next
    case (Some w)
    then show ?thesis using S by auto
  qed
qed

lemma init_fold_inv:
  "valid c0 \<or> (\<forall>q w. (q, w) \<in> S \<longrightarrow> map_of (props c0) q = Some w) \<Longrightarrow>
   valid (foldl init_step c0 qs)
     \<or> (\<forall>q w. (q, w) \<in> S \<union> set qs \<longrightarrow> map_of (props (foldl init_step c0 qs)) q = Some w)"
proof (induction qs arbitrary: c0 S)
  case Nil
  then show ?case by simp
next
  case (Cons a qs)
  obtain p' v' where a: "a = (p', v')" by (cases a)
  from init_step_inv[OF Cons.prems, of p' v']
  have "valid (foldl init_step (init_step c0 (p', v')) qs)
       \<or> (\<forall>q w. (q, w) \<in> insert (p', v') S \<union> set qs \<longrightarrow>
             map_of (props (foldl init_step (init_step c0 (p', v')) qs)) q = Some w)"
    by (rule Cons.IH)
  then show ?case by (simp add: a)
qed

lemma init_flags_conflict:
  assumes "(p, True) \<in> set ps" and "(p, False) \<in> set ps"
  shows "valid (MazeClause_init ps)"
proof -
  have h: "valid (MazeClause_init ps)
        \<or> (\<forall>q w. (q, w) \<in> {} \<union> set ps \<longrightarrow> map_of (props (MazeClause_init ps)) q = Some w)"
    unfolding MazeClause_init_def by (rule init_fold_inv) simp
  show ?thesis
  proof (rule ccontr)
    assume "\<not> valid (MazeClause_init ps)"
    with h have a: "\<forall>q w. (q, w) \<in> set ps \<longrightarrow> map_of (props (MazeClause_init ps)) q = Some w"
      by simp
    from a assms(1) have "map_of (props (MazeClause_init ps)) p = Some True" by blast
    moreover from a assms(2) have "map_of (props (MazeClause_init ps)) p = Some False" by blast
    ultimately show False by simp
  qed
qed

text \<open>
  C2. Clause equality is claimed to hold exactly for clauses with the same
  proposition-to-polarity associations and the same tautology flag. The comparison only
  looks at the keys: the unit clauses \<open>P(1,1)\<close> and \<open>\<not>P(1,1)\<close> compare equal although
  they map the proposition to different polarities.
\<close>

theorem eq_ignores_polarity:
  "MazeClause_eq (MazeClause_init [((''P'', (1, 1)), True)])
                 (MazeClause_init [((''P'', (1, 1)), False)])
   \<and> get_prop (MazeClause_init [((''P'', (1, 1)), True)]) (''P'', (1, 1)) = Some True
   \<and> get_prop (MazeClause_init [((''P'', (1, 1)), False)]) (''P'', (1, 1)) = Some False
   \<and> valid (MazeClause_init [((''P'', (1, 1)), True)])
       = valid (MazeClause_init [((''P'', (1, 1)), False)])"
  by (simp add: MazeClause_eq_def MazeClause_init_def get_prop_def)

text \<open>
  C6. A clause built from a sequence that supplies a proposition with both polarities is
  claimed to be flagged as a tautology and to hold no occurrence of that proposition. The
  constructor deletes the proposition at the conflicting occurrence and inserts it again
  at the next one: supplied as \<open>P(1,1)\<close>, \<open>\<not>P(1,1)\<close>, \<open>P(1,1)\<close>, the clause is flagged
  and still holds \<open>P(1,1)\<close>.
\<close>

theorem init_reinserts_conflicting_prop:
  "MazeClause_init [((''P'', (1, 1)), True), ((''P'', (1, 1)), False), ((''P'', (1, 1)), True)]
     = \<lparr>props = [((''P'', (1, 1)), True)], valid = True\<rparr>"
  by (simp add: MazeClause_init_def)

text \<open>
  C3. \<open>invert\<close> is claimed to return a clause with every polarity flipped and to leave
  the receiver unchanged. The method returns the receiver itself: after the call on the
  clause \<open>P(1,1)\<close> stored at reference 0, the result is reference 0 and the clause stored
  there is \<open>\<not>P(1,1)\<close>.
\<close>

theorem invert_mutates_receiver:
  "fst (invert 0 [0 \<mapsto> MazeClause_init [((''P'', (1, 1)), True)]]) = 0
   \<and> snd (invert 0 [0 \<mapsto> MazeClause_init [((''P'', (1, 1)), True)]]) 0
       = Some \<lparr>props = [((''P'', (1, 1)), False)], valid = False\<rparr>
   \<and> MazeClause_init [((''P'', (1, 1)), True)]
       = \<lparr>props = [((''P'', (1, 1)), True)], valid = False\<rparr>"
  by (simp add: invert_def invert_clause_def invert_props_def MazeClause_init_def)

text \<open>
  C10. Hashing is claimed to be consistent with equality, so that the clause set holds
  one clause per equality class and \<open>tell\<close> is idempotent under clause equality. The
  clauses \<open>P(1,1)\<close> and \<open>\<not>P(1,1)\<close> compare equal, the values hashed for them differ, and
  telling both stores two clauses.
\<close>

theorem hash_differs_on_equal_clauses:
  "MazeClause_eq (MazeClause_init [((''P'', (1, 1)), True)])
                 (MazeClause_init [((''P'', (1, 1)), False)])
   \<and> MazeClause_hash (MazeClause_init [((''P'', (1, 1)), True)])
       \<noteq> MazeClause_hash (MazeClause_init [((''P'', (1, 1)), False)])
   \<and> tell (tell [] (MazeClause_init [((''P'', (1, 1)), True)]))
        (MazeClause_init [((''P'', (1, 1)), False)])
       = [MazeClause_init [((''P'', (1, 1)), True)], MazeClause_init [((''P'', (1, 1)), False)]]"
  by (simp add: MazeClause_eq_def MazeClause_hash_def MazeClause_init_def tell_def
      set_add_def set_contains_def same_elem_def)

section \<open>Properties of the knowledge base\<close>

lemmas kb_eval_defs =
  ask_def filter_clauses_def filter_loop.simps MazeClause_init_def
  set_add_def set_contains_def same_elem_def MazeClause_hash_def MazeClause_eq_def
  set_difference_def invert_clause_def invert_props_def resolve_def dict_update_def
  set_update_def issubset_def get_simplified_clauses_def simplify_from_known_locs_def
  locs_union_def len_def get_prop_def

text \<open>
  The fixture of the specification: the knowledge base with the clauses
  \<open>\<not>P(1,1) \<or> \<not>P(2,1)\<close> and \<open>P(1,1)\<close> answers the query \<open>\<not>P(2,1)\<close> with \<open>True\<close>, in
  the second pass of the loop.
\<close>

lemma ask_fixture:
  "ask (Suc (Suc n))
     [MazeClause_init [((''P'', (1, 1)), False), ((''P'', (2, 1)), False)],
      MazeClause_init [((''P'', (1, 1)), True)]]
     (MazeClause_init [((''P'', (2, 1)), False)]) = Some True"
  by (simp add: kb_eval_defs)

text \<open>
  A clause flagged as a tautology may keep propositions, and \<open>resolve\<close> does not look at
  the flag: the knowledge base that only holds the tautology built from \<open>P(1,1)\<close>,
  \<open>\<not>P(1,1)\<close>, \<open>P(2,1)\<close> answers the query \<open>P(2,1)\<close> with \<open>True\<close>, and does not entail it.
\<close>

lemma ask_true_not_entailed:
  "ask (Suc n)
     [MazeClause_init [((''P'', (1, 1)), True), ((''P'', (1, 1)), False), ((''P'', (2, 1)), True)]]
     (MazeClause_init [((''P'', (2, 1)), True)]) = Some True
   \<and> \<not> entails
     [MazeClause_init [((''P'', (1, 1)), True), ((''P'', (1, 1)), False), ((''P'', (2, 1)), True)]]
     (MazeClause_init [((''P'', (2, 1)), True)])"
proof -
  have "\<not> entails
     [MazeClause_init [((''P'', (1, 1)), True), ((''P'', (1, 1)), False), ((''P'', (2, 1)), True)]]
     (MazeClause_init [((''P'', (2, 1)), True)])"
    unfolding entails_def
    by (simp add: MazeClause_init_def clause_true_def exI[of _ "\<lambda>p. False"])
  then show ?thesis by (simp add: kb_eval_defs)
qed

text \<open>
  C1. \<open>ask\<close> is claimed to return \<open>True\<close> exactly for the queries that a consistent
  knowledge base entails, for every query clause that is no tautology. The knowledge base
  that holds \<open>P(1,1)\<close> is consistent and entails the clause \<open>P(1,1) \<or> P(2,1)\<close>; the
  negated query handed to the refutation is the single clause \<open>\<not>P(1,1) \<or> \<not>P(2,1)\<close>, no
  empty clause is derived, and \<open>ask\<close> returns \<open>False\<close> in its second pass.
\<close>

theorem ask_false_on_entailed_disjunction:
  "consistent [MazeClause_init [((''P'', (1, 1)), True)]]
   \<and> \<not> is_valid (MazeClause_init [((''P'', (1, 1)), True), ((''P'', (2, 1)), True)])
   \<and> entails [MazeClause_init [((''P'', (1, 1)), True)]]
        (MazeClause_init [((''P'', (1, 1)), True), ((''P'', (2, 1)), True)])
   \<and> ask (Suc (Suc n)) [MazeClause_init [((''P'', (1, 1)), True)]]
        (MazeClause_init [((''P'', (1, 1)), True), ((''P'', (2, 1)), True)]) = Some False"
proof -
  have "consistent [MazeClause_init [((''P'', (1, 1)), True)]]"
    unfolding consistent_def
    by (rule exI[of _ "\<lambda>p. True"]) (simp add: MazeClause_init_def clause_true_def)
  moreover have "\<not> is_valid (MazeClause_init [((''P'', (1, 1)), True), ((''P'', (2, 1)), True)])"
    by (simp add: is_valid_def MazeClause_init_def)
  moreover have "entails [MazeClause_init [((''P'', (1, 1)), True)]]
        (MazeClause_init [((''P'', (1, 1)), True), ((''P'', (2, 1)), True)])"
    by (simp add: entails_def MazeClause_init_def clause_true_def)
  moreover have "ask (Suc (Suc n)) [MazeClause_init [((''P'', (1, 1)), True)]]
        (MazeClause_init [((''P'', (1, 1)), True), ((''P'', (2, 1)), True)]) = Some False"
    by (simp add: kb_eval_defs)
  ultimately show ?thesis by simp
qed

theorem ask_false_on_entailed_disjunction_witness:
  "list_all (clause_true (\<lambda>p. True)) [MazeClause_init [((''P'', (1, 1)), True)]]
   \<and> clause_true (\<lambda>p. True)
        (MazeClause_init [((''P'', (1, 1)), True), ((''P'', (2, 1)), True)])
   \<and> ask 2 [MazeClause_init [((''P'', (1, 1)), True)]]
        (MazeClause_init [((''P'', (1, 1)), True), ((''P'', (2, 1)), True)]) = Some False"
  using ask_false_on_entailed_disjunction[of 0]
  by (simp add: entails_def MazeClause_init_def clause_true_def numeral_2_eq_2)

text \<open>
  C4. The simplification pass is claimed to replace each resolvable clause by its
  resolvent, to drop each clause that holds the known fact, and never to increase the
  number of clauses. For the single clause \<open>P(1,1) \<or> P(2,1)\<close> and the known safe
  location \<open>(1,1)\<close> the pass adds the resolvent \<open>P(2,1)\<close> and keeps the clause it resolved:
  one clause goes in, two come out.
\<close>

theorem simplify_keeps_resolved_clause:
  "get_simplified_clauses
     [MazeClause_init [((''P'', (1, 1)), True), ((''P'', (2, 1)), True)]] (1, 1) False
     = [MazeClause_init [((''P'', (1, 1)), True), ((''P'', (2, 1)), True)],
        MazeClause_init [((''P'', (2, 1)), True)]]
   \<and> simplify_from_known_locs
     [MazeClause_init [((''P'', (1, 1)), True), ((''P'', (2, 1)), True)]] [] [(1, 1)]
     = [MazeClause_init [((''P'', (1, 1)), True), ((''P'', (2, 1)), True)],
        MazeClause_init [((''P'', (2, 1)), True)]]"
  by (simp add: kb_eval_defs)

text \<open>
  C5. Simplification is claimed to be idempotent. With the clauses
  \<open>\<not>P(1,1) \<or> P(2,1)\<close> and \<open>\<not>P(1,1) \<or> P(3,1)\<close> and the known safe location \<open>(1,1)\<close>, the
  scan removes the first clause that holds \<open>\<not>P(1,1)\<close> and stops; a second application
  removes the other one. This holds for both orders in which the set can be iterated.
\<close>

theorem simplify_twice_differs:
  "simplify_from_known_locs
     [MazeClause_init [((''P'', (1, 1)), False), ((''P'', (2, 1)), True)],
      MazeClause_init [((''P'', (1, 1)), False), ((''P'', (3, 1)), True)]] [] [(1, 1)]
     = [MazeClause_init [((''P'', (1, 1)), False), ((''P'', (3, 1)), True)]]
   \<and> simplify_from_known_locs
     [MazeClause_init [((''P'', (1, 1)), False), ((''P'', (3, 1)), True)],
      MazeClause_init [((''P'', (1, 1)), False), ((''P'', (2, 1)), True)]] [] [(1, 1)]
     = [MazeClause_init [((''P'', (1, 1)), False), ((''P'', (2, 1)), True)]]
   \<and> simplify_from_known_locs
       [MazeClause_init [((''P'', (1, 1)), False), ((''P'', (3, 1)), True)]] [] [(1, 1)] = []
   \<and> simplify_from_known_locs
       [MazeClause_init [((''P'', (1, 1)), False), ((''P'', (2, 1)), True)]] [] [(1, 1)] = []"
  by (simp add: kb_eval_defs doubleton_eq_iff)

section \<open>Properties of the agent\<close>

text \<open>
  No method of the agent removes a location from one of its three sets: every step
  leaves each set at least as large as it was.
\<close>

lemma set_loc_add: "set (loc_add xs x) = insert x (set xs)"
  by (auto simp: loc_add_def)




lemma ask_with_timeout_locs:
  "safe_tiles (snd (ask_with_timeout b s q)) = safe_tiles s
   \<and> pit_tiles (snd (ask_with_timeout b s q)) = pit_tiles s
   \<and> possible_pits (snd (ask_with_timeout b s q)) = possible_pits s"
  by (simp add: ask_with_timeout_def)


lemma is_safe_tile_safe_pit:
  "set (safe_tiles s) \<inter> set (pit_tiles s) = {} \<Longrightarrow>
   set (safe_tiles (snd (is_safe_tile K b s l))) \<inter> set (pit_tiles (snd (is_safe_tile K b s l))) = {}"
  by (auto simp: is_safe_tile_def ask_with_timeout_def simplify_self_def set_loc_add
      split: prod.splits)















text \<open>
  With an empty knowledge base no query is answered with \<open>True\<close>, whatever the time
  limit: a tile that is in neither confirmed set stays undecided.
\<close>

lemma simplify_empty: "simplify_from_known_locs [] ps ss = []"
proof -
  have "foldl (\<lambda>cs l. get_simplified_clauses cs l (l \<in> set ps)) [] ls = []" for ls
    by (induction ls)
       (simp_all add: get_simplified_clauses_def set_update_def set_difference_def)
  then show ?thesis by (simp add: simplify_from_known_locs_def)
qed

lemma ask_empty_kb: "ask n [] q \<noteq> Some True"
  by (cases n)
     (simp_all add: ask_def filter_clauses_def filter_loop.simps set_add_def set_contains_def
        issubset_def)

lemma is_safe_tile_empty_kb:
  assumes "kb s = []" "loc \<notin> set (safe_tiles s)" "loc \<notin> set (pit_tiles s)"
  shows "fst (is_safe_tile K budget s loc) = None
         \<and> kb (snd (is_safe_tile K budget s loc)) = []
         \<and> safe_tiles (snd (is_safe_tile K budget s loc)) = safe_tiles s
         \<and> pit_tiles (snd (is_safe_tile K budget s loc)) = pit_tiles s"
  using assms ask_empty_kb
  by (auto simp: is_safe_tile_def ask_with_timeout_def simplify_self_def simplify_empty
      split: prod.splits)

text \<open>
  C8. Move selection is claimed to return the safe candidate with the smallest priority.
  The candidates are heapified, not sorted, and then walked in the order of the heap's
  list. The agent at \<open>(0,0)\<close> with the goal \<open>(5,0)\<close> and the frontier iterated as \<open>(0,1)\<close>,
  \<open>(4,0)\<close>, \<open>(2,0)\<close> has the priorities 6.5, 3 and 4; the heap's list is \<open>(4,0)\<close>, \<open>(0,1)\<close>,
  \<open>(2,0)\<close>; \<open>(4,0)\<close> is undecided, and the move returned is \<open>(0,1)\<close> although the safe tile
  \<open>(2,0)\<close> has the smaller priority. This holds for every choice of the tile markers and
  every time limit.
\<close>

theorem heap_order_skips_cheaper_safe_tile:
  "fst (find_best_next_move K budget frontier_state [(0, 1), (4, 0), (2, 0)] (0, 0)) = Inr (0, 1)
   \<and> heapify [(priority frontier_state (0, 0) (0, 1), (0, 1)),
               (priority frontier_state (0, 0) (4, 0), (4, 0)),
               (priority frontier_state (0, 0) (2, 0), (2, 0))]
       = [(3, (4, 0)), (13 / 2, (0, 1)), (4, (2, 0))]
   \<and> priority frontier_state (0, 0) (2, 0) < priority frontier_state (0, 0) (0, 1)
   \<and> fst (is_safe_tile K budget frontier_state (2, 0)) = Some True"
proof -
  have bf: "build_frontier frontier_state (0, 0) [(0, 1), (4, 0), (2, 0)] []
              = Inr [(13 / 2, (0, 1)), (3, (4, 0)), (4, (2, 0))]"
    by code_simp
  have hp: "heapify [(13 / 2, (0, 1)), (3, (4, 0)), (4, (2, 0))]
              = [(3, (4, 0)), (13 / 2, (0, 1)), (4, (2, 0))]"
    by code_simp
  obtain r s' where e: "is_safe_tile K budget frontier_state (4, 0) = (r, s')"
    by (cases "is_safe_tile K budget frontier_state (4, 0)")
  have "kb frontier_state = []" "(4, 0) \<notin> set (safe_tiles frontier_state)"
    "(4, 0) \<notin> set (pit_tiles frontier_state)"
    by (simp_all add: frontier_state_def)
  from is_safe_tile_empty_kb[OF this, of K budget] e
  have r: "r = None" and st: "safe_tiles s' = safe_tiles frontier_state"
    by simp_all
  have nxt: "is_safe_tile K budget s' (0, 1) = (Some True, s')"
    by (simp add: is_safe_tile_def st frontier_state_def)
  have "fst (find_best_next_move K budget frontier_state [(0, 1), (4, 0), (2, 0)] (0, 0))
          = Inr (0, 1)"
    unfolding find_best_next_move_def bf by (simp add: hp e r nxt)
  moreover have "heapify [(priority frontier_state (0, 0) (0, 1), (0, 1)),
               (priority frontier_state (0, 0) (4, 0), (4, 0)),
               (priority frontier_state (0, 0) (2, 0), (2, 0))]
       = [(3, (4, 0)), (13 / 2, (0, 1)), (4, (2, 0))]"
    by code_simp
  moreover have "priority frontier_state (0, 0) (2, 0) < priority frontier_state (0, 0) (0, 1)"
    by code_simp
  moreover have "fst (is_safe_tile K budget frontier_state (2, 0)) = Some True"
    by (simp add: is_safe_tile_def frontier_state_def)
  ultimately show ?thesis by simp
qed

text \<open>
  C9. The second query is claimed to be issued whenever the first one returns \<open>False\<close>
  or times out. When the first query times out, \<open>is_safe_tile\<close> records the location as
  suspected and returns at once: for the agent built on a clear tile at \<open>(1,1)\<close> with a
  time limit that lets no process finish, the only query issued for \<open>(3,1)\<close> is the
  first one.
\<close>

theorem timeout_skips_second_query:
  "fst (ask_with_timeout no_time
          (simplify_self (MazeAgent_init sample_constants no_time sample_env_start
             \<lparr>perceived_loc = (1, 1), perceived_tile = ''.''\<rparr>))
          (MazeClause_init [((''P'', (3, 1)), False)])) = None
   \<and> asked (snd (is_safe_tile sample_constants no_time
        (MazeAgent_init sample_constants no_time sample_env_start
           \<lparr>perceived_loc = (1, 1), perceived_tile = ''.''\<rparr>) (3, 1)))
       = [MazeClause_init [((''P'', (3, 1)), False)]]
   \<and> fst (is_safe_tile sample_constants no_time
        (MazeAgent_init sample_constants no_time sample_env_start
           \<lparr>perceived_loc = (1, 1), perceived_tile = ''.''\<rparr>) (3, 1)) = None"
  by code_simp

text \<open>
  C9, as the code has it. For a location in neither confirmed set, \<open>is_safe_tile\<close> runs
  the simplify pass and asks the simplified knowledge base whether the location is free
  of a pit. On the answer \<open>True\<close> it adds the location to the confirmed-safe set, tells
  the knowledge base that the location has no pit and returns \<open>True\<close>. On a timeout it
  adds the location to the suspected set and returns unknown, without a second query.
  Only on the answer \<open>False\<close> it issues the second query, of the same simplified knowledge
  base: the answer \<open>True\<close> adds the location to the confirmed-hazard set, tells the
  knowledge base that the location has a pit and returns \<open>False\<close>; the answer \<open>False\<close> or
  a timeout adds the location to the suspected set and returns unknown. Nothing else
  changes, and the result is always one of the three answers, never an error.
\<close>

theorem is_safe_tile_queries:
  assumes "loc \<notin> set (safe_tiles s)" and "loc \<notin> set (pit_tiles s)"
  shows
    "(let kb1 = simplify_from_known_locs (kb s) (pit_tiles s) (safe_tiles s);
          q1 = MazeClause_init [((PIT_BLOCK K, loc), False)];
          q2 = MazeClause_init [((PIT_BLOCK K, loc), True)];
          r = fst (is_safe_tile K budget s loc);
          s' = snd (is_safe_tile K budget s loc)
      in goal s' = goal s \<and> starting_loc s' = starting_loc s
         \<and> (case ask (budget (length (asked s))) kb1 q1 of
               Some True \<Rightarrow>
                 r = Some True \<and> asked s' = asked s @ [q1]
                 \<and> set (safe_tiles s') = insert loc (set (safe_tiles s))
                 \<and> pit_tiles s' = pit_tiles s \<and> possible_pits s' = possible_pits s
                 \<and> kb s' = tell kb1 q1
             | None \<Rightarrow>
                 r = None \<and> asked s' = asked s @ [q1]
                 \<and> safe_tiles s' = safe_tiles s \<and> pit_tiles s' = pit_tiles s
                 \<and> set (possible_pits s') = insert loc (set (possible_pits s))
                 \<and> kb s' = kb1
             | Some False \<Rightarrow>
                 asked s' = asked s @ [q1, q2] \<and> safe_tiles s' = safe_tiles s
                 \<and> (case ask (budget (Suc (length (asked s)))) kb1 q2 of
                       Some True \<Rightarrow>
                         r = Some False
                         \<and> set (pit_tiles s') = insert loc (set (pit_tiles s))
                         \<and> possible_pits s' = possible_pits s
                         \<and> kb s' = tell kb1 q2
                     | _ \<Rightarrow>
                         r = None \<and> pit_tiles s' = pit_tiles s
                         \<and> set (possible_pits s') = insert loc (set (possible_pits s))
                         \<and> kb s' = kb1)))"
  using assms
  by (auto simp: is_safe_tile_def ask_with_timeout_def simplify_self_def set_loc_add Let_def
      split: option.splits bool.splits)

theorem is_safe_tile_queries_witness:
  "(4, 0) \<notin> set (safe_tiles (frontier_state\<lparr>kb := [MazeClause_init [((''P'', (4, 0)), False)]]\<rparr>))
   \<and> (4, 0) \<notin> set (pit_tiles (frontier_state\<lparr>kb := [MazeClause_init [((''P'', (4, 0)), False)]]\<rparr>))
   \<and> fst (is_safe_tile sample_constants ample_time
        (frontier_state\<lparr>kb := [MazeClause_init [((''P'', (4, 0)), False)]]\<rparr>) (4, 0)) = Some True
   \<and> (4, 0) \<in> set (safe_tiles (snd (is_safe_tile sample_constants ample_time
        (frontier_state\<lparr>kb := [MazeClause_init [((''P'', (4, 0)), False)]]\<rparr>) (4, 0))))
   \<and> asked (snd (is_safe_tile sample_constants ample_time
        (frontier_state\<lparr>kb := [MazeClause_init [((''P'', (4, 0)), False)]]\<rparr>) (4, 0)))
       = [MazeClause_init [((''P'', (4, 0)), False)]]"
proof -
  let ?s = "frontier_state\<lparr>kb := [MazeClause_init [((''P'', (4, 0)), False)]]\<rparr>"
  have h1: "(4, 0) \<notin> set (safe_tiles ?s)" and h2: "(4, 0) \<notin> set (pit_tiles ?s)"
    by (simp_all add: frontier_state_def)
  have a1: "ask (ample_time (length (asked ?s)))
        (simplify_from_known_locs (kb ?s) (pit_tiles ?s) (safe_tiles ?s))
        (MazeClause_init [((PIT_BLOCK sample_constants, (4, 0)), False)]) = Some True"
    by code_simp
  have p: "PIT_BLOCK sample_constants = ''P''"
    by (simp add: sample_constants_def)
  have e: "asked ?s = []"
    by (simp add: frontier_state_def)
  show ?thesis
    using is_safe_tile_queries[OF h1 h2, where budget = ample_time and K = sample_constants] h1 h2
    unfolding Let_def a1 by (simp add: p e)
qed

end
